theory Spec2Isabelle
  imports Main "HOL-Library.AList" "HOL-Library.Multiset"
begin

section \<open>Dayjs values\<close>

text \<open>
  A Dayjs value is an instant, \<open>valueOf\<close>, in milliseconds since the epoch, together with
  the UTC offset in minutes under which its wall-clock fields are read. \<open>utc()\<close> and
  \<open>tz(zone)\<close> keep the instant and change the offset only.
\<close>

record dayjs =
  valueOf :: int
  utcOffset :: int

definition localMillis :: "dayjs \<Rightarrow> int" where
  "localMillis d = valueOf d + utcOffset d * 60000"

definition minute :: "dayjs \<Rightarrow> int" where
  "minute d = (localMillis d div 60000) mod 60"

definition setMinute :: "int \<Rightarrow> dayjs \<Rightarrow> dayjs" where
  "setMinute m d = d\<lparr>valueOf := valueOf d + (m - minute d) * 60000\<rparr>"

definition startOfHour :: "dayjs \<Rightarrow> dayjs" where
  "startOfHour d = d\<lparr>valueOf := valueOf d - localMillis d mod 3600000\<rparr>"

definition addMinutes :: "int \<Rightarrow> dayjs \<Rightarrow> dayjs" where
  "addMinutes n d = d\<lparr>valueOf := valueOf d + n * 60000\<rparr>"

definition subtractSecond :: "dayjs \<Rightarrow> dayjs" where
  "subtractSecond d = d\<lparr>valueOf := valueOf d - 1000\<rparr>"

definition utc :: "dayjs \<Rightarrow> dayjs" where
  "utc d = d\<lparr>utcOffset := 0\<rparr>"

definition isAfter :: "dayjs \<Rightarrow> dayjs \<Rightarrow> bool" where
  "isAfter a b = (valueOf b < valueOf a)"

definition isBefore :: "dayjs \<Rightarrow> dayjs \<Rightarrow> bool" where
  "isBefore a b = (valueOf a < valueOf b)"

text \<open>
  \<open>format("YYYY-MM-DD")\<close> prints the local calendar date. The string is only ever used as a
  key of the out-of-office table, so it is represented by the number of the local day
  (days since the epoch), of which the string is a one-to-one rendering.
\<close>

definition formatYYYYMMDD :: "dayjs \<Rightarrow> int" where
  "formatYYYYMMDD d = localMillis d div 86400000"

section \<open>Environment\<close>

text \<open>
  What the function reads from outside its arguments: the clock (frozen for one call), the
  variable \<open>NEXT_PUBLIC_AVAILABILITY_SCHEDULE_INTERVAL\<close> and the time zone database behind
  \<open>tz\<close>. \<open>scheduleInterval\<close> is \<open>Number(...)\<close> of the variable, any integer, negative ones
  included; \<open>0\<close> stands for every setting that \<open>Number(...) || 1\<close> turns into 1 (unset,
  empty, not a number, zero). JavaScript numbers that are not integers are floating
  point and have no counterpart here: frequencies, lengths, offsets and the schedule
  interval are whole numbers of minutes. The clock is read twice, for the notice floor
  and for the offset of the zone; both readings are the one frozen \<open>now\<close>.
  \<open>zoneOffset zone t\<close> is the UTC offset in minutes of the zone at instant \<open>t\<close>; the table
  is total, so a zone name that the library does not know, on which \<open>tz\<close> raises, has no
  counterpart here, nor has an instant beyond the range of \<open>Date\<close>.
  \<open>getTimeZone\<close> is the helper of \<open>./dayjs\<close> that names the zone of a Dayjs value.
\<close>

record environment =
  now :: int
  scheduleInterval :: int
  zoneOffset :: "string \<Rightarrow> int \<Rightarrow> int"
  getTimeZone :: "dayjs \<Rightarrow> string"

definition tz :: "environment \<Rightarrow> string \<Rightarrow> dayjs \<Rightarrow> dayjs" where
  "tz env zone d = d\<lparr>utcOffset := zoneOffset env zone (valueOf d)\<rparr>"

section \<open>Data model\<close>

record date_range =
  start :: dayjs
  end' :: dayjs

text \<open>
  An out-of-office entry. A field is \<open>None\<close> when it is absent, \<open>undefined\<close> or \<open>null\<close>;
  the user references are objects of a type \<open>'u\<close> declared elsewhere.
\<close>

record 'u out_of_office =
  oooToUser :: "'u option"
  oooFromUser :: "'u option"
  oooReason :: "string option"
  oooEmoji :: "string option"

text \<open>\<open>SlotData\<close>: a field that the object does not have is \<open>None\<close>.\<close>

record 'u slot_data =
  time :: dayjs
  userIds :: "int list option"
  away :: "bool option"
  fromUser :: "'u option"
  toUser :: "'u option"
  reason :: "string option"
  emoji :: "string option"

record 'u args =
  dateRanges :: "date_range list"
  frequency :: int
  eventLength :: int
  timeZone :: string
  minimumBookingNotice :: int
  offsetStart :: "int option"
  datesOutOfOffice :: "(int \<rightharpoonup> 'u out_of_office) option"

section \<open>buildSlotsWithDateRanges\<close>

text \<open>
  JavaScript's \<open>%\<close> on integers, the divisor not zero: the remainder of the division that
  truncates, which has the sign of the dividend.
\<close>

definition jsRem :: "int \<Rightarrow> int \<Rightarrow> int" where
  "jsRem x y = sgn x * (\<bar>x\<bar> mod \<bar>y\<bar>)"

definition minimumOfOne :: "int \<Rightarrow> int" where
  "minimumOfOne input = (if input < 1 then 1 else input)"

text \<open>The three reassignments at the head of the function.\<close>

definition frequency1 :: "'u args \<Rightarrow> int" where
  "frequency1 a = minimumOfOne (frequency a)"

definition eventLength1 :: "'u args \<Rightarrow> int" where
  "eventLength1 a = minimumOfOne (eventLength a)"

text \<open>\<open>offsetStart ? minimumOfOne(offsetStart) : 0\<close>: both a missing value and 0 are falsy.\<close>

definition offsetStart1 :: "'u args \<Rightarrow> int" where
  "offsetStart1 a =
     (case offsetStart a of
        None \<Rightarrow> 0
      | Some v \<Rightarrow> if v \<noteq> 0 then minimumOfOne v else 0)"

definition intervalsWithDefinedStartTimes :: "int list" where
  "intervalsWithDefinedStartTimes = [60, 30, 20, 15, 10, 5]"

text \<open>
  The \<open>for\<close> loop with \<open>break\<close>: the first candidate that divides the frequency replaces
  the interval and ends the loop; when none does, the interval keeps its first value,
  \<open>Number(...) || 1\<close>.
\<close>

fun scanIntervals :: "int \<Rightarrow> int list \<Rightarrow> int \<Rightarrow> int" where
  "scanIntervals freq [] interval = interval"
| "scanIntervals freq (c # cs) interval =
     (if jsRem freq c = 0 then c else scanIntervals freq cs interval)"

definition defaultInterval :: "environment \<Rightarrow> int" where
  "defaultInterval env = (if scheduleInterval env = 0 then 1 else scheduleInterval env)"

definition interval :: "environment \<Rightarrow> 'u args \<Rightarrow> int" where
  "interval env a =
     scanIntervals (frequency1 a) intervalsWithDefinedStartTimes (defaultInterval env)"

text \<open>
  The selection in the words of the specification: the first of the candidates, in their
  order, that divides the frequency evenly, and the fallback when none does.
\<close>

definition firstEvenDivisor :: "int \<Rightarrow> int \<Rightarrow> int" where
  "firstEvenDivisor fallback freq =
     (case find (\<lambda>c. c dvd freq) [60, 30, 20, 15, 10, 5] of
        Some c \<Rightarrow> c
      | None \<Rightarrow> fallback)"

definition startTimeWithMinNotice :: "environment \<Rightarrow> 'u args \<Rightarrow> dayjs" where
  "startTimeWithMinNotice env a =
     addMinutes (minimumBookingNotice a) \<lparr>valueOf = now env, utcOffset = 0\<rparr>"

definition tzOffsetMinutes :: "environment \<Rightarrow> 'u args \<Rightarrow> int" where
  "tzOffsetMinutes env a = zoneOffset env (timeZone a) (now env)"

definition isHalfHourTimezone :: "environment \<Rightarrow> 'u args \<Rightarrow> bool" where
  "isHalfHourTimezone env a = (jsRem (tzOffsetMinutes env a) 60 \<noteq> 0)"

definition isISTTimezone :: "environment \<Rightarrow> 'u args \<Rightarrow> bool" where
  "isISTTimezone env a = (timeZone a = ''Asia/Kolkata'' \<or> tzOffsetMinutes env a = 330)"

definition hasHalfHourStartTimes :: "'u args \<Rightarrow> bool" where
  "hasHalfHourStartTimes a = list_ex (\<lambda>rng. minute (start rng) = 30) (dateRanges a)"

definition shouldApplyHalfHourOffset :: "environment \<Rightarrow> 'u args \<Rightarrow> bool" where
  "shouldApplyHalfHourOffset env a =
     ((isISTTimezone env a \<or> (isHalfHourTimezone env a \<and> hasHalfHourStartTimes a))
      \<and> interval env a = 60)"

text \<open>\<open>frequency + (offsetStart ?? 0)\<close>, the step of the emission loop, in minutes.\<close>

definition step :: "'u args \<Rightarrow> int" where
  "step a = frequency1 a + offsetStart1 a"

text \<open>The correction applied where the flag is set: a minute other than 30 is set to 30.\<close>

definition applyHalfHourOffset :: "environment \<Rightarrow> 'u args \<Rightarrow> dayjs \<Rightarrow> dayjs" where
  "applyHalfHourOffset env a d =
     (if shouldApplyHalfHourOffset env a
      then (if minute d \<noteq> 30 then setMinute 30 d else d)
      else d)"

text \<open>\<open>Math.ceil(m / i)\<close> on integers, \<open>i\<close> not zero, of either sign.\<close>

definition ceilDiv :: "int \<Rightarrow> int \<Rightarrow> int" where
  "ceilDiv m i = - ((- m) div i)"

text \<open>
  The rounding of the candidate to the interval. The interval is not zero; it is
  negative when a negative schedule interval is configured and no candidate divides the
  frequency, and then \<open>Math.ceil(m / i) * i\<close> is at most \<open>m\<close>: the rounding goes down.
\<close>

definition roundUpToInterval :: "int \<Rightarrow> dayjs \<Rightarrow> dayjs" where
  "roundUpToInterval i d =
     (if jsRem (minute d) i \<noteq> 0
      then addMinutes (ceilDiv (minute d) i * i) (startOfHour d)
      else d)"

text \<open>
  The first candidate of a range, before the scan of the slots placed so far, is the
  outcome of four assignments to \<open>slotStartTimeUTC\<close>: the later of the start of the
  range and the notice floor, the rounding, the offset, and the half-hour correction.
\<close>

definition laterOfStartAndNotice :: "environment \<Rightarrow> 'u args \<Rightarrow> date_range \<Rightarrow> dayjs" where
  "laterOfStartAndNotice env a rng =
     (if isAfter (utc (start rng)) (startTimeWithMinNotice env a)
      then utc (start rng) else startTimeWithMinNotice env a)"

definition initialSlotStart :: "environment \<Rightarrow> 'u args \<Rightarrow> date_range \<Rightarrow> dayjs" where
  "initialSlotStart env a rng =
     applyHalfHourOffset env a
       (addMinutes (offsetStart1 a)
          (roundUpToInterval (interval env a) (laterOfStartAndNotice env a rng)))"

text \<open>
  The \<open>slots\<close> map: keys are the ISO strings of instants, represented by the instant; an
  association list in insertion order, where \<open>AList.update\<close> is \<open>Map.set\<close> (a new key goes
  to the end, an old key keeps its place).
\<close>

type_synonym 'u slots = "(int \<times> 'u slot_data) list"

definition parseKey :: "int \<Rightarrow> dayjs" where
  "parseKey k = \<lparr>valueOf = k, utcOffset = 0\<rparr>"

text \<open>
  The \<open>while (!result.done)\<close> loop over the keys of \<open>slots\<close>; the state is the pair
  \<open>(slotStartTimeUTC, slotStartTime)\<close>.
\<close>

fun adjustToExisting ::
  "environment \<Rightarrow> 'u args \<Rightarrow> date_range \<Rightarrow> int list \<Rightarrow> dayjs \<times> dayjs \<Rightarrow> dayjs \<times> dayjs" where
  "adjustToExisting env a rng [] st = st"
| "adjustToExisting env a rng (k # ks) (slotStartTimeUTC, slotStartTime) =
     (let utcResultValue = parseKey k in
      if isBefore utcResultValue slotStartTime
         \<and> isAfter (addMinutes (step a) utcResultValue) slotStartTime
      then
        (let slotStartTimeUTC' =
               (if \<not> isBefore utcResultValue (start rng) then utcResultValue
                else addMinutes (step a) utcResultValue)
         in adjustToExisting env a rng ks
              (slotStartTimeUTC', tz env (timeZone a) slotStartTimeUTC'))
      else adjustToExisting env a rng ks (slotStartTimeUTC, slotStartTime))"

text \<open>JavaScript truthiness of an optional string: present and not empty.\<close>

definition truthyString :: "string option \<Rightarrow> string option" where
  "truthyString s = (case s of Some (c # cs) \<Rightarrow> Some (c # cs) | _ \<Rightarrow> None)"

definition slotDataFor :: "'u args \<Rightarrow> int \<Rightarrow> dayjs \<Rightarrow> 'u slot_data" where
  "slotDataFor a dateYYYYMMDD slotStartTime =
     (case (case datesOutOfOffice a of None \<Rightarrow> None | Some table \<Rightarrow> table dateYYYYMMDD) of
        None \<Rightarrow>
          \<lparr>time = slotStartTime, userIds = None, away = None, fromUser = None,
           toUser = None, reason = None, emoji = None\<rparr>
      | Some dateOutOfOfficeExists \<Rightarrow>
          \<lparr>time = slotStartTime, userIds = None, away = Some True,
           fromUser = oooFromUser dateOutOfOfficeExists,
           toUser = oooToUser dateOutOfOfficeExists,
           reason = truthyString (oooReason dateOutOfOfficeExists),
           emoji = truthyString (oooEmoji dateOutOfOfficeExists)\<rparr>)"

definition nextSlotUTC :: "environment \<Rightarrow> 'u args \<Rightarrow> dayjs \<Rightarrow> dayjs" where
  "nextSlotUTC env a currentSlotUTC =
     applyHalfHourOffset env a (addMinutes (step a) currentSlotUTC)"

definition fitsBeforeEnd :: "'u args \<Rightarrow> date_range \<Rightarrow> dayjs \<Rightarrow> bool" where
  "fitsBeforeEnd a rng currentSlotUTC =
     (\<not> isAfter (subtractSecond (addMinutes (eventLength1 a) currentSlotUTC)) (end' rng))"

definition slotsSet :: "'u slots \<Rightarrow> 'u slot_data \<Rightarrow> 'u slots" where
  "slotsSet slots slotData = AList.update (valueOf (time slotData)) slotData slots"

text \<open>
  The emission loop, with \<open>slots\<close> and \<open>currentSlotUTC\<close> as its state. The loop need not
  end: \<open>None\<close> is the run that does not return.
\<close>

partial_function (option) emissionLoop ::
  "environment \<Rightarrow> 'u args \<Rightarrow> date_range \<Rightarrow> int \<Rightarrow> 'u slots \<Rightarrow> dayjs \<Rightarrow> 'u slots option" where
  "emissionLoop env a rng dateYYYYMMDD slots currentSlotUTC =
     (if fitsBeforeEnd a rng currentSlotUTC
      then emissionLoop env a rng dateYYYYMMDD
             (slotsSet slots
                (slotDataFor a dateYYYYMMDD (tz env (timeZone a) currentSlotUTC)))
             (nextSlotUTC env a currentSlotUTC)
      else Some slots)"

declare emissionLoop.simps [code]

definition firstSlotUTC :: "environment \<Rightarrow> 'u args \<Rightarrow> 'u slots \<Rightarrow> date_range \<Rightarrow> dayjs" where
  "firstSlotUTC env a slots rng =
     (let slotStartTimeUTC = initialSlotStart env a rng
      in utc (snd (adjustToExisting env a rng (map fst slots)
                    (slotStartTimeUTC, tz env (timeZone a) slotStartTimeUTC))))"

text \<open>The body of \<open>orderedDateRanges.forEach\<close>.\<close>

definition processRange ::
  "environment \<Rightarrow> 'u args \<Rightarrow> 'u slots \<Rightarrow> date_range \<Rightarrow> 'u slots option" where
  "processRange env a slots rng =
     emissionLoop env a rng (formatYYYYMMDD (start rng)) slots (firstSlotUTC env a slots rng)"

fun forEachRange ::
  "environment \<Rightarrow> 'u args \<Rightarrow> date_range list \<Rightarrow> 'u slots \<Rightarrow> 'u slots option" where
  "forEachRange env a [] slots = Some slots"
| "forEachRange env a (rng # ranges) slots =
     Option.bind (processRange env a slots rng) (forEachRange env a ranges)"

text \<open>
  \<open>Array.prototype.sort\<close> sorts the argument array in place and is stable; the comparator
  orders by the instant of \<open>start\<close>.
\<close>

definition orderedDateRanges :: "'u args \<Rightarrow> date_range list" where
  "orderedDateRanges a = sort_key (\<lambda>rng. valueOf (start rng)) (dateRanges a)"

text \<open>
  The result of a call: the returned array, and the two argument objects as the caller
  finds them afterwards.
\<close>

record 'u outcome =
  returned :: "'u slot_data list"
  dateRangesAfter :: "date_range list"
  datesOutOfOfficeAfter :: "(int \<rightharpoonup> 'u out_of_office) option"

definition buildSlotsWithDateRanges :: "environment \<Rightarrow> 'u args \<Rightarrow> 'u outcome option" where
  "buildSlotsWithDateRanges env a =
     map_option
       (\<lambda>slots. \<lparr>returned = map snd slots,
                 dateRangesAfter = orderedDateRanges a,
                 datesOutOfOfficeAfter = datesOutOfOffice a\<rparr>)
       (forEachRange env a (orderedDateRanges a) [])"

text \<open>
  \<open>getSlots\<close> takes \<open>inviteeDate\<close> in place of \<open>timeZone\<close> and defaults \<open>offsetStart\<close> to 0.
\<close>

definition getSlots :: "environment \<Rightarrow> dayjs \<Rightarrow> 'u args \<Rightarrow> 'u outcome option" where
  "getSlots env inviteeDate a =
     buildSlotsWithDateRanges env
       (a\<lparr>timeZone := getTimeZone env inviteeDate,
          offsetStart := Some (case offsetStart a of None \<Rightarrow> 0 | Some v \<Rightarrow> v)\<rparr>)"

section \<open>Auxiliary notions\<close>

text \<open>
  The slot data that the emission loop writes, in the order of writing: the loop does
  not read \<open>slots\<close>, so this list depends on the first candidate only. \<open>rangeSlots\<close> are
  the slots emitted for a range when \<open>slots\<close> are the slots placed before it; that
  \<open>processRange\<close> writes exactly these into the map, in this order, and returns when
  and only when this list exists, is lemma \<open>processRange_rangeSlots\<close>.
\<close>

partial_function (option) emitSlots ::
  "environment \<Rightarrow> 'u args \<Rightarrow> date_range \<Rightarrow> int \<Rightarrow> dayjs \<Rightarrow> 'u slot_data list option" where
  "emitSlots env a rng dateYYYYMMDD currentSlotUTC =
     (if fitsBeforeEnd a rng currentSlotUTC
      then Option.bind
             (emitSlots env a rng dateYYYYMMDD (nextSlotUTC env a currentSlotUTC))
             (\<lambda>rest. Some (slotDataFor a dateYYYYMMDD (tz env (timeZone a) currentSlotUTC) # rest))
      else Some [])"

declare emitSlots.simps [code]

definition rangeSlots ::
  "environment \<Rightarrow> 'u args \<Rightarrow> 'u slots \<Rightarrow> date_range \<Rightarrow> 'u slot_data list option" where
  "rangeSlots env a slots rng =
     emitSlots env a rng (formatYYYYMMDD (start rng)) (firstSlotUTC env a slots rng)"

text \<open>
  Two argument records that agree on everything but the raw values of \<open>frequency\<close>,
  \<open>eventLength\<close> and \<open>offsetStart\<close>, and agree on these after the reassignments.
\<close>

definition sameEffect :: "'u args \<Rightarrow> 'u args \<Rightarrow> bool" where
  "sameEffect a b \<longleftrightarrow>
     dateRanges a = dateRanges b \<and> timeZone a = timeZone b
     \<and> minimumBookingNotice a = minimumBookingNotice b
     \<and> datesOutOfOffice a = datesOutOfOffice b
     \<and> frequency1 a = frequency1 b \<and> eventLength1 a = eventLength1 b
     \<and> offsetStart1 a = offsetStart1 b"

text \<open>A range is malformed when its end precedes its start.\<close>

definition malformed :: "date_range \<Rightarrow> bool" where
  "malformed rng \<longleftrightarrow> valueOf (end' rng) < valueOf (start rng)"

section \<open>Scenarios\<close>

text \<open>
  Concrete inputs on which the statements below are exercised. Instants are given on
  2024-06-03 (UTC); the zone table knows \<open>Asia/Kolkata\<close> at UTC+5:30 and takes every
  other name as UTC.
\<close>

definition exampleZones :: "string \<Rightarrow> int \<Rightarrow> int" where
  "exampleZones zone t =
     (if zone = ''Asia/Kolkata'' then 330 else 0)"

definition junThird :: "int \<Rightarrow> int \<Rightarrow> int" where
  "junThird h m = 1717372800000 + (h * 60 + m) * 60000"

definition exampleEnv :: environment where
  "exampleEnv =
     \<lparr>now = junThird 0 0, scheduleInterval = 0, zoneOffset = exampleZones,
      getTimeZone = (\<lambda>d. if utcOffset d = 330 then ''Asia/Kolkata'' else ''UTC'')\<rparr>"

definition plainSlot :: "int \<Rightarrow> int \<Rightarrow> unit slot_data" where
  "plainSlot t off =
     \<lparr>time = \<lparr>valueOf = t, utcOffset = off\<rparr>, userIds = None, away = None,
      fromUser = None, toUser = None, reason = None, emoji = None\<rparr>"

text \<open>A morning in Kolkata, 09:00 to 13:00 local time, hourly slots, half an hour of notice.\<close>

definition kolkataMorning :: date_range where
  "kolkataMorning =
     \<lparr>start = \<lparr>valueOf = junThird 3 30, utcOffset = 330\<rparr>,
      end' = \<lparr>valueOf = junThird 7 30, utcOffset = 330\<rparr>\<rparr>"

definition kolkataArgs :: "unit args" where
  "kolkataArgs =
     \<lparr>dateRanges = [kolkataMorning], frequency = 60, eventLength = 60,
      timeZone = ''Asia/Kolkata'', minimumBookingNotice = 30, offsetStart = None,
      datesOutOfOffice = None\<rparr>"



text \<open>
  A range given in UTC, 09:00 to 12:00, for a Kolkata invitee, hourly slots with a start
  offset of a quarter of an hour.
\<close>

definition utcMorning :: date_range where
  "utcMorning =
     \<lparr>start = \<lparr>valueOf = junThird 9 0, utcOffset = 0\<rparr>,
      end' = \<lparr>valueOf = junThird 12 0, utcOffset = 0\<rparr>\<rparr>"


text \<open>
  A range over midnight, 23:00 on 2024-06-03 (day 19877) to 01:00 on the next day, with
  an out-of-office entry for the first day only.
\<close>

definition ptoEntry :: "unit out_of_office" where
  "ptoEntry =
     \<lparr>oooToUser = None, oooFromUser = None, oooReason = Some ''PTO'',
      oooEmoji = Some '':palm_tree:''\<rparr>"

definition overnightTable :: "int \<rightharpoonup> unit out_of_office" where
  "overnightTable = [19877 \<mapsto> ptoEntry]"

definition overnight :: date_range where
  "overnight =
     \<lparr>start = \<lparr>valueOf = junThird 23 0, utcOffset = 0\<rparr>,
      end' = \<lparr>valueOf = junThird 25 0, utcOffset = 0\<rparr>\<rparr>"

definition overnightArgs :: "unit args" where
  "overnightArgs =
     \<lparr>dateRanges = [overnight], frequency = 60, eventLength = 60,
      timeZone = ''UTC'', minimumBookingNotice = 0, offsetStart = None,
      datesOutOfOffice = Some overnightTable\<rparr>"

definition awaySlot :: "int \<Rightarrow> unit slot_data" where
  "awaySlot t =
     \<lparr>time = \<lparr>valueOf = t, utcOffset = 0\<rparr>, userIds = None, away = Some True,
      fromUser = None, toUser = None, reason = Some ''PTO'', emoji = Some '':palm_tree:''\<rparr>"

text \<open>The same morning for a UTC invitee, with \<open>offsetStart\<close> passed as 0.\<close>

definition utcArgs :: "unit args" where
  "utcArgs =
     \<lparr>dateRanges = [utcMorning], frequency = 60, eventLength = 60,
      timeZone = ''UTC'', minimumBookingNotice = 0, offsetStart = Some 0,
      datesOutOfOffice = None\<rparr>"

text \<open>Two ranges, passed with the later one first.\<close>

definition utcAfternoon :: date_range where
  "utcAfternoon =
     \<lparr>start = \<lparr>valueOf = junThird 13 0, utcOffset = 0\<rparr>,
      end' = \<lparr>valueOf = junThird 15 0, utcOffset = 0\<rparr>\<rparr>"

definition unsortedArgs :: "unit args" where
  "unsortedArgs =
     \<lparr>dateRanges = [utcAfternoon, utcMorning], frequency = 60, eventLength = 60,
      timeZone = ''UTC'', minimumBookingNotice = 0, offsetStart = None,
      datesOutOfOffice = None\<rparr>"

text \<open>A range whose end precedes its start.\<close>

definition brokenRange :: date_range where
  "brokenRange =
     \<lparr>start = \<lparr>valueOf = junThird 3 0, utcOffset = 0\<rparr>,
      end' = \<lparr>valueOf = junThird 2 0, utcOffset = 0\<rparr>\<rparr>"

text \<open>
  The schedule interval configured as 60, and frequencies that none of the candidates
  divides, for a Kolkata invitee.
\<close>

definition hourlyEnv :: environment where
  "hourlyEnv = exampleEnv\<lparr>scheduleInterval := 60\<rparr>"

definition twelveArgs :: "unit args" where
  "twelveArgs =
     \<lparr>dateRanges = [kolkataMorning], frequency = 12, eventLength = 12,
      timeZone = ''Asia/Kolkata'', minimumBookingNotice = 0, offsetStart = None,
      datesOutOfOffice = None\<rparr>"

definition sevenArgs :: "unit args" where
  "sevenArgs =
     \<lparr>dateRanges = [kolkataMorning, brokenRange], frequency = 7, eventLength = 30,
      timeZone = ''Asia/Kolkata'', minimumBookingNotice = 0, offsetStart = None,
      datesOutOfOffice = None\<rparr>"


definition quarterHourEnv :: environment where
  "quarterHourEnv = exampleEnv\<lparr>scheduleInterval := 15\<rparr>"



section \<open>Basic facts\<close>

lemma jsRem_nonneg: "0 \<le> x \<Longrightarrow> 0 < y \<Longrightarrow> jsRem x y = x mod y"
  by (cases "x = 0") (simp_all add: jsRem_def)

lemma jsRem_eq_0_iff: "jsRem x y = 0 \<longleftrightarrow> y dvd x"
proof -
  have "jsRem x y = 0 \<longleftrightarrow> \<bar>x\<bar> mod \<bar>y\<bar> = 0"
    by (cases "x = 0") (simp_all add: jsRem_def sgn_if)
  also have "\<dots> \<longleftrightarrow> \<bar>y\<bar> dvd \<bar>x\<bar>"
    by (simp add: mod_eq_0_iff_dvd)
  finally show ?thesis by simp
qed

lemma minute_ge0: "0 \<le> minute d"
  by (simp add: minute_def)

lemma minute_lt60: "minute d < 60"
  by (simp add: minute_def)

lemma valueOf_addMinutes: "valueOf (addMinutes n d) = valueOf d + n * 60000"
  by (simp add: addMinutes_def)

lemma utcOffset_addMinutes: "utcOffset (addMinutes n d) = utcOffset d"
  by (simp add: addMinutes_def)

lemma minute_addMinutes: "minute (addMinutes n d) = (minute d + n) mod 60"
proof -
  have "localMillis (addMinutes n d) = localMillis d + n * 60000"
    by (simp add: localMillis_def addMinutes_def)
  then have "minute (addMinutes n d) = (localMillis d div 60000 + n) mod 60"
    by (simp add: minute_def add.commute)
  then show ?thesis
    by (simp add: minute_def mod_add_left_eq)
qed

lemma valueOf_setMinute: "valueOf (setMinute m d) = valueOf d + (m - minute d) * 60000"
  by (simp add: setMinute_def)

lemma utcOffset_setMinute: "utcOffset (setMinute m d) = utcOffset d"
  by (simp add: setMinute_def)

lemma minute_setMinute:
  assumes "0 \<le> m" and "m < 60"
  shows "minute (setMinute m d) = m"
proof -
  have "minute (setMinute m d) = (minute d + (m - minute d)) mod 60"
    using minute_addMinutes [of "m - minute d" d] by (simp add: setMinute_def addMinutes_def)
  then show ?thesis using assms by simp
qed

lemma applyHalfHourOffset_off:
  "\<not> shouldApplyHalfHourOffset env a \<Longrightarrow> applyHalfHourOffset env a d = d"
  by (simp add: applyHalfHourOffset_def)

lemma valueOf_applyHalfHourOffset:
  "shouldApplyHalfHourOffset env a \<Longrightarrow>
   valueOf (applyHalfHourOffset env a d) = valueOf d + (30 - minute d) * 60000"
  by (simp add: applyHalfHourOffset_def valueOf_setMinute)

lemma minute_applyHalfHourOffset:
  "shouldApplyHalfHourOffset env a \<Longrightarrow> minute (applyHalfHourOffset env a d) = 30"
  by (simp add: applyHalfHourOffset_def minute_setMinute)

lemma utcOffset_applyHalfHourOffset:
  "utcOffset (applyHalfHourOffset env a d) = utcOffset d"
  by (simp add: applyHalfHourOffset_def utcOffset_setMinute)

lemma minimumOfOne_max: "minimumOfOne v = max v 1"
  by (simp add: minimumOfOne_def)

lemma frequency1_ge1: "1 \<le> frequency1 a"
  by (simp add: frequency1_def minimumOfOne_def)

lemma eventLength1_ge1: "1 \<le> eventLength1 a"
  by (simp add: eventLength1_def minimumOfOne_def)

lemma offsetStart1_ge0: "0 \<le> offsetStart1 a"
  by (simp add: offsetStart1_def minimumOfOne_def split: option.split)

lemma step_ge1: "1 \<le> step a"
  using frequency1_ge1 [of a] offsetStart1_ge0 [of a] by (simp add: step_def)

lemma scanIntervals_pos:
  "0 < d \<Longrightarrow> \<forall>c \<in> set cs. 0 < c \<Longrightarrow> 0 < scanIntervals f cs d"
  by (induction cs) auto

lemma defaultInterval_pos: "0 \<le> scheduleInterval env \<Longrightarrow> 0 < defaultInterval env"
  by (simp add: defaultInterval_def)

lemma scanIntervals_nonzero:
  "d \<noteq> 0 \<Longrightarrow> \<forall>c \<in> set cs. c \<noteq> 0 \<Longrightarrow> scanIntervals f cs d \<noteq> 0"
  by (induction cs) auto

lemma interval_nonzero: "interval env a \<noteq> 0"
  unfolding interval_def
  by (rule scanIntervals_nonzero)
     (simp_all add: defaultInterval_def intervalsWithDefinedStartTimes_def)

lemma interval_pos: "0 \<le> scheduleInterval env \<Longrightarrow> 0 < interval env a"
  unfolding interval_def
  by (rule scanIntervals_pos [OF defaultInterval_pos])
     (simp_all add: intervalsWithDefinedStartTimes_def)

lemma scanIntervals_divisor:
  "c \<in> set cs \<Longrightarrow> c dvd f \<Longrightarrow> scanIntervals f cs d \<in> set cs"
  by (induction cs) (auto simp add: jsRem_eq_0_iff)

lemma interval_pos_of_divisor:
  assumes "c \<in> set intervalsWithDefinedStartTimes" and "c dvd frequency1 a"
  shows "0 < interval env a"
proof -
  have "interval env a \<in> set intervalsWithDefinedStartTimes"
    unfolding interval_def using assms by (rule scanIntervals_divisor)
  then show ?thesis by (auto simp add: intervalsWithDefinedStartTimes_def)
qed

lemma shouldApply_interval: "shouldApplyHalfHourOffset env a \<Longrightarrow> interval env a = 60"
  by (simp add: shouldApplyHalfHourOffset_def)

lemma utcOffset_nextSlotUTC: "utcOffset (nextSlotUTC env a c) = utcOffset c"
  by (simp add: nextSlotUTC_def utcOffset_applyHalfHourOffset utcOffset_addMinutes)

lemma nextSlotUTC_off:
  "\<not> shouldApplyHalfHourOffset env a \<Longrightarrow>
   valueOf (nextSlotUTC env a c) = valueOf c + step a * 60000"
  by (simp add: nextSlotUTC_def applyHalfHourOffset_off valueOf_addMinutes)

lemma nextSlotUTC_on:
  "shouldApplyHalfHourOffset env a \<Longrightarrow>
   valueOf (nextSlotUTC env a c) = valueOf c + (step a + 30 - (minute c + step a) mod 60) * 60000"
  by (simp add: nextSlotUTC_def valueOf_applyHalfHourOffset valueOf_addMinutes minute_addMinutes algebra_simps)

lemma nextSlotUTC_lower:
  "valueOf c + (step a - 29) * 60000 \<le> valueOf (nextSlotUTC env a c)"
proof (cases "shouldApplyHalfHourOffset env a")
  case True
  have "(minute c + step a) mod 60 < 60" by simp
  then show ?thesis using nextSlotUTC_on [OF True, of c] by simp
next
  case False
  then show ?thesis using nextSlotUTC_off [OF False, of c] by simp
qed

lemma nextSlotUTC_progress:
  assumes "\<not> shouldApplyHalfHourOffset env a \<or> 30 \<le> step a"
  shows "valueOf c < valueOf (nextSlotUTC env a c)"
proof (cases "shouldApplyHalfHourOffset env a")
  case True
  then have "30 \<le> step a" using assms by simp
  then show ?thesis using nextSlotUTC_lower [of c a env] by simp
next
  case False
  then show ?thesis using nextSlotUTC_off [OF False, of c] step_ge1 [of a] by simp
qed

lemma nextSlotUTC_stuck:
  assumes "shouldApplyHalfHourOffset env a" and "step a < 30" and "minute c = 30"
  shows "nextSlotUTC env a c = c"
proof -
  have "(minute c + step a) mod 60 = 30 + step a"
    using assms step_ge1 [of a] by simp
  then have "valueOf (nextSlotUTC env a c) = valueOf c"
    using nextSlotUTC_on [OF assms(1), of c] by simp
  moreover have "utcOffset (nextSlotUTC env a c) = utcOffset c"
    by (rule utcOffset_nextSlotUTC)
  ultimately show ?thesis by simp
qed


lemma valueOf_tz: "valueOf (tz env z d) = valueOf d"
  by (simp add: tz_def)

lemma utcOffset_tz: "utcOffset (tz env z d) = zoneOffset env z (valueOf d)"
  by (simp add: tz_def)

lemma valueOf_utc: "valueOf (utc d) = valueOf d"
  by (simp add: utc_def)

lemma utcOffset_utc: "utcOffset (utc d) = 0"
  by (simp add: utc_def)


lemma fitsBeforeEnd_iff:
  "fitsBeforeEnd a rng c \<longleftrightarrow> valueOf c + eventLength1 a * 60000 - 1000 \<le> valueOf (end' rng)"
  by (auto simp add: fitsBeforeEnd_def isAfter_def subtractSecond_def addMinutes_def)

lemma emitSlots_done:
  "\<not> fitsBeforeEnd a rng c \<Longrightarrow> emitSlots env a rng date c = Some []"
  by (subst emitSlots.simps) simp

lemma emitSlots_more:
  "fitsBeforeEnd a rng c \<Longrightarrow>
   emitSlots env a rng date c =
     Option.bind (emitSlots env a rng date (nextSlotUTC env a c))
       (\<lambda>rest. Some (slotDataFor a date (tz env (timeZone a) c) # rest))"
  by (subst emitSlots.simps) simp

lemma emitSlots_Nil_iff:
  "emitSlots env a rng date c = Some [] \<longleftrightarrow> \<not> fitsBeforeEnd a rng c"
proof
  assume h: "emitSlots env a rng date c = Some []"
  show "\<not> fitsBeforeEnd a rng c"
  proof
    assume "fitsBeforeEnd a rng c"
    then have "Option.bind (emitSlots env a rng date (nextSlotUTC env a c))
       (\<lambda>rest. Some (slotDataFor a date (tz env (timeZone a) c) # rest)) = Some []"
      by (subst emitSlots_more [symmetric]) (simp_all add: h)
    then show False
      by (auto simp add: bind_eq_Some_conv)
  qed
next
  assume "\<not> fitsBeforeEnd a rng c"
  then show "emitSlots env a rng date c = Some []" by (rule emitSlots_done)
qed

lemma emitSlots_Cons:
  assumes "emitSlots env a rng date c = Some (x # rest)"
  shows "fitsBeforeEnd a rng c \<and> x = slotDataFor a date (tz env (timeZone a) c)
         \<and> emitSlots env a rng date (nextSlotUTC env a c) = Some rest"
proof -
  have f: "fitsBeforeEnd a rng c"
  proof (rule ccontr)
    assume "\<not> fitsBeforeEnd a rng c"
    from emitSlots_done [OF this, of env date] assms show False by simp
  qed
  have "Option.bind (emitSlots env a rng date (nextSlotUTC env a c))
       (\<lambda>rest. Some (slotDataFor a date (tz env (timeZone a) c) # rest)) = Some (x # rest)"
    by (subst emitSlots_more [symmetric]) (simp_all add: f assms)
  then show ?thesis
    using f by (auto simp add: bind_eq_Some_conv)
qed

lemma emitSlots_stuck:
  assumes "emitSlots env a rng date c = Some xs" and "nextSlotUTC env a c = c"
  shows "xs = []"
proof (cases xs)
  case Nil
  then show ?thesis .
next
  case (Cons x rest)
  with assms(1) have "emitSlots env a rng date (nextSlotUTC env a c) = Some rest"
    using emitSlots_Cons by blast
  with assms Cons show ?thesis by simp
qed

lemma emitSlots_diverges:
  assumes "fitsBeforeEnd a rng c" and "nextSlotUTC env a c = c"
  shows "emitSlots env a rng date c = None"
proof (cases "emitSlots env a rng date c")
  case None
  then show ?thesis .
next
  case (Some xs)
  then have "xs = []" using assms(2) by (rule emitSlots_stuck)
  with Some assms(1) show ?thesis by (simp add: emitSlots_Nil_iff)
qed

lemma emitSlots_nth:
  assumes "emitSlots env a rng date c = Some xs" and "i < length xs"
  shows "fitsBeforeEnd a rng ((nextSlotUTC env a ^^ i) c)
         \<and> xs ! i = slotDataFor a date (tz env (timeZone a) ((nextSlotUTC env a ^^ i) c))"
  using assms
proof (induction xs arbitrary: c i)
  case Nil
  then show ?case by simp
next
  case (Cons x rest)
  from emitSlots_Cons [OF Cons.prems(1)]
  have f: "fitsBeforeEnd a rng c"
    and x: "x = slotDataFor a date (tz env (timeZone a) c)"
    and r: "emitSlots env a rng date (nextSlotUTC env a c) = Some rest"
    by simp_all
  show ?case
  proof (cases i)
    case 0
    with f x show ?thesis by simp
  next
    case (Suc j)
    with Cons.prems(2) have "j < length rest" by simp
    from Cons.IH [OF r this] Suc show ?thesis
      by (simp add: funpow_swap1)
  qed
qed

lemma emitSlots_terminates:
  assumes "\<not> shouldApplyHalfHourOffset env a \<or> 30 \<le> step a"
  shows "\<exists>xs. emitSlots env a rng date c = Some xs"
proof (induction "nat (valueOf (end' rng) - valueOf c + 1)" arbitrary: c rule: less_induct)
  case less
  show ?case
  proof (cases "fitsBeforeEnd a rng c")
    case False
    then show ?thesis by (simp add: emitSlots_done)
  next
    case True
    have lt: "valueOf c < valueOf (nextSlotUTC env a c)"
      using assms by (rule nextSlotUTC_progress)
    have "valueOf c \<le> valueOf (end' rng)"
      using True eventLength1_ge1 [of a] by (simp add: fitsBeforeEnd_iff)
    with lt have "nat (valueOf (end' rng) - valueOf (nextSlotUTC env a c) + 1)
                  < nat (valueOf (end' rng) - valueOf c + 1)"
      by simp
    from less [OF this] obtain rest
      where "emitSlots env a rng date (nextSlotUTC env a c) = Some rest" by blast
    then show ?thesis by (simp add: emitSlots_more [OF True])
  qed
qed

lemma emissionLoop_emitSlots_Some:
  assumes "emitSlots env a rng date c = Some xs"
  shows "emissionLoop env a rng date slots c = Some (foldl slotsSet slots xs)"
  using assms
proof (induction xs arbitrary: c slots)
  case Nil
  then have "\<not> fitsBeforeEnd a rng c" by (simp add: emitSlots_Nil_iff)
  then show ?case by (subst emissionLoop.simps) simp
next
  case (Cons x rest)
  from emitSlots_Cons [OF Cons.prems]
  have f: "fitsBeforeEnd a rng c"
    and x: "x = slotDataFor a date (tz env (timeZone a) c)"
    and r: "emitSlots env a rng date (nextSlotUTC env a c) = Some rest"
    by simp_all
  have "emissionLoop env a rng date slots c
        = emissionLoop env a rng date (slotsSet slots x) (nextSlotUTC env a c)"
    using f x by (subst emissionLoop.simps) simp
  with Cons.IH [OF r, of "slotsSet slots x"] show ?case by simp
qed

lemma emissionLoop_returns:
  assumes "emissionLoop env a rng date slots c = Some slots'"
  shows "\<exists>xs. emitSlots env a rng date c = Some xs"
proof (rule emissionLoop.raw_induct
    [where P = "\<lambda>env a rng date slots c y. \<exists>xs. emitSlots env a rng date c = Some xs",
      OF _ assms])
  fix loop :: "environment \<Rightarrow> 'a args \<Rightarrow> date_range \<Rightarrow> int \<Rightarrow> 'a slots \<Rightarrow> dayjs \<Rightarrow> 'a slots option"
    and env a rng date slots c y
  assume IH: "\<And>env a rng date slots c y. loop env a rng date slots c = Some y
                \<Longrightarrow> \<exists>xs. emitSlots env a rng date c = Some xs"
    and body: "(if fitsBeforeEnd a rng c
                then loop env a rng date
                       (slotsSet slots (slotDataFor a date (tz env (timeZone a) c)))
                       (nextSlotUTC env a c)
                else Some slots) = Some y"
  show "\<exists>xs. emitSlots env a rng date c = Some xs"
  proof (cases "fitsBeforeEnd a rng c")
    case False
    then show ?thesis by (simp add: emitSlots_done)
  next
    case True
    with body have "loop env a rng date
             (slotsSet slots (slotDataFor a date (tz env (timeZone a) c)))
             (nextSlotUTC env a c) = Some y"
      by simp
    from IH [OF this] obtain rest
      where "emitSlots env a rng date (nextSlotUTC env a c) = Some rest" by blast
    then show ?thesis by (simp add: emitSlots_more [OF True])
  qed
qed

lemma processRange_rangeSlots:
  "processRange env a slots rng = map_option (foldl slotsSet slots) (rangeSlots env a slots rng)"
proof (cases "rangeSlots env a slots rng")
  case (Some xs)
  then show ?thesis
    by (simp add: processRange_def rangeSlots_def emissionLoop_emitSlots_Some)
next
  case None
  have "processRange env a slots rng = None"
  proof (cases "processRange env a slots rng")
    case None
    then show ?thesis .
  next
    case (Some slots')
    then obtain xs where "rangeSlots env a slots rng = Some xs"
      unfolding processRange_def rangeSlots_def using emissionLoop_returns by blast
    with \<open>rangeSlots env a slots rng = None\<close> show ?thesis by simp
  qed
  with None show ?thesis by simp
qed

lemma hour_remainder:
  "(v::int) mod 3600000 = ((v div 60000) mod 60) * 60000 + v mod 60000"
proof -
  have "v mod (60000 * 60) = 60000 * (v div 60000 mod 60) + v mod 60000"
    by (rule zmod_zmult2_eq) simp
  then show ?thesis by simp
qed

lemma localMillis_hour:
  "localMillis d mod 3600000 = minute d * 60000 + localMillis d mod 60000"
  unfolding minute_def by (rule hour_remainder)

lemma ceilDiv_ge: "0 < i \<Longrightarrow> m \<le> ceilDiv m i * i"
proof -
  assume i: "0 < i"
  have "(- m) div i * i = - m - (- m) mod i"
    by (simp add: minus_mod_eq_div_mult)
  moreover have "0 \<le> (- m) mod i"
    using i by simp
  ultimately have "(- m) div i * i \<le> - m"
    by simp
  then show ?thesis by (simp add: ceilDiv_def)
qed

lemma ceilDiv_gt:
  assumes "0 < i" and "m mod i \<noteq> 0"
  shows "m < ceilDiv m i * i"
proof -
  have "ceilDiv m i * i \<noteq> m"
  proof
    assume "ceilDiv m i * i = m"
    then have "i dvd m" by (metis dvd_triv_right)
    with assms(2) show False by (simp add: mod_eq_0_iff_dvd)
  qed
  with ceilDiv_ge [OF assms(1), of m] show ?thesis by simp
qed

lemma utcOffset_startOfHour: "utcOffset (startOfHour d) = utcOffset d"
  by (simp add: startOfHour_def)

lemma minute_startOfHour: "minute (startOfHour d) = 0"
proof -
  have "localMillis (startOfHour d) = localMillis d - localMillis d mod 3600000"
    by (simp add: localMillis_def startOfHour_def)
  also have "\<dots> = 3600000 * (localMillis d div 3600000)"
    by (simp add: minus_mod_eq_mult_div)
  finally have "localMillis (startOfHour d) div 60000 = 60 * (localMillis d div 3600000)"
    by simp
  then show ?thesis by (simp add: minute_def)
qed

lemma utcOffset_roundUpToInterval: "utcOffset (roundUpToInterval i d) = utcOffset d"
  by (simp add: roundUpToInterval_def utcOffset_addMinutes utcOffset_startOfHour)

lemma roundUpToInterval_ge:
  assumes "0 < i"
  shows "valueOf d \<le> valueOf (roundUpToInterval i d)"
proof (cases "jsRem (minute d) i = 0")
  case True
  then show ?thesis by (simp add: roundUpToInterval_def)
next
  case rem: False
  then have False: "minute d mod i \<noteq> 0"
    using assms minute_ge0 [of d] by (simp add: jsRem_nonneg)
  have "minute d + 1 \<le> ceilDiv (minute d) i * i"
    using ceilDiv_gt [OF assms False] by simp
  then have "(minute d + 1) * 60000 \<le> ceilDiv (minute d) i * i * 60000"
    by simp
  moreover have "localMillis d mod 60000 < 60000" by simp
  ultimately show ?thesis
    using rem localMillis_hour [of d]
    by (simp add: roundUpToInterval_def valueOf_addMinutes startOfHour_def algebra_simps)
qed

lemma ceilDiv_60: "0 < m \<Longrightarrow> m < 60 \<Longrightarrow> ceilDiv m 60 = 1"
  by (simp add: ceilDiv_def)

lemma minute_roundUpToInterval_60: "minute (roundUpToInterval 60 d) = 0"
proof (cases "jsRem (minute d) 60 = 0")
  case True
  then have "minute d mod 60 = 0" using minute_ge0 [of d] by (simp add: jsRem_nonneg)
  then have "minute d = 0" using minute_ge0 [of d] minute_lt60 [of d] by simp
  with True show ?thesis by (simp add: roundUpToInterval_def)
next
  case False
  then have "0 < minute d" using minute_ge0 [of d] by (cases "minute d = 0") (auto simp add: jsRem_def)
  then have "ceilDiv (minute d) 60 = 1" using minute_lt60 [of d] by (rule ceilDiv_60)
  with False show ?thesis
    by (simp add: roundUpToInterval_def minute_addMinutes minute_startOfHour)
qed

lemma valueOf_startTimeWithMinNotice:
  "valueOf (startTimeWithMinNotice env a) = now env + minimumBookingNotice a * 60000"
  by (simp add: startTimeWithMinNotice_def addMinutes_def)

lemma utcOffset_startTimeWithMinNotice: "utcOffset (startTimeWithMinNotice env a) = 0"
  by (simp add: startTimeWithMinNotice_def addMinutes_def)

lemma rounded_ge:
  assumes "0 < interval env a"
  shows "valueOf (start rng) \<le> valueOf (roundUpToInterval (interval env a) (laterOfStartAndNotice env a rng))"
    and "now env + minimumBookingNotice a * 60000 \<le> valueOf (roundUpToInterval (interval env a) (laterOfStartAndNotice env a rng))"
  using roundUpToInterval_ge [OF assms, of "utc (start rng)"]
        roundUpToInterval_ge [OF assms, of "startTimeWithMinNotice env a"]
  by (auto simp add: laterOfStartAndNotice_def isAfter_def valueOf_utc valueOf_startTimeWithMinNotice)

lemma utcOffset_rounded: "utcOffset (roundUpToInterval (interval env a) (laterOfStartAndNotice env a rng)) = 0"
  by (simp add: laterOfStartAndNotice_def utcOffset_roundUpToInterval utcOffset_utc
      utcOffset_startTimeWithMinNotice)

lemma utcOffset_initialSlotStart: "utcOffset (initialSlotStart env a rng) = 0"
  by (simp add: initialSlotStart_def utcOffset_applyHalfHourOffset utcOffset_addMinutes
      utcOffset_rounded)

lemma minute_initialSlotStart:
  "shouldApplyHalfHourOffset env a \<Longrightarrow> minute (initialSlotStart env a rng) = 30"
  by (simp add: initialSlotStart_def minute_applyHalfHourOffset)

lemma initialSlotStart_ge_rounded:
  "valueOf (roundUpToInterval (interval env a) (laterOfStartAndNotice env a rng)) \<le> valueOf (initialSlotStart env a rng)"
proof (cases "shouldApplyHalfHourOffset env a")
  case False
  then show ?thesis
    using offsetStart1_ge0 [of a]
    by (simp add: initialSlotStart_def applyHalfHourOffset_off valueOf_addMinutes)
next
  case True
  then have "interval env a = 60" by (rule shouldApply_interval)
  then have "minute (roundUpToInterval (interval env a) (laterOfStartAndNotice env a rng)) = 0"
    by (simp add: minute_roundUpToInterval_60)
  then have m: "minute (addMinutes (offsetStart1 a) (roundUpToInterval (interval env a) (laterOfStartAndNotice env a rng)))
                = offsetStart1 a mod 60"
    by (simp add: minute_addMinutes)
  have "offsetStart1 a mod 60 \<le> offsetStart1 a"
    using offsetStart1_ge0 [of a] by (simp add: zmod_le_nonneg_dividend)
  then show ?thesis
    using True m by (simp add: initialSlotStart_def valueOf_applyHalfHourOffset valueOf_addMinutes)
qed

lemma initialSlotStart_ge:
  assumes "0 < interval env a"
  shows "valueOf (start rng) \<le> valueOf (initialSlotStart env a rng)"
    and "now env + minimumBookingNotice a * 60000 \<le> valueOf (initialSlotStart env a rng)"
  using rounded_ge [OF assms, where rng = rng]
        initialSlotStart_ge_rounded [of env a rng]
  by simp_all

lemma adjustToExisting_miss:
  "\<not> (isBefore (parseKey k) sT \<and> isAfter (addMinutes (step a) (parseKey k)) sT) \<Longrightarrow>
   adjustToExisting env a rng (k # ks) (sU, sT) = adjustToExisting env a rng ks (sU, sT)"
  by (cases "isBefore (parseKey k) sT"; cases "isAfter (addMinutes (step a) (parseKey k)) sT")
     (simp_all add: Let_def)

lemma adjustToExisting_hit:
  "isBefore (parseKey k) sT \<Longrightarrow> isAfter (addMinutes (step a) (parseKey k)) sT \<Longrightarrow>
   adjustToExisting env a rng (k # ks) (sU, sT) =
     adjustToExisting env a rng ks
       (if \<not> isBefore (parseKey k) (start rng) then parseKey k
        else addMinutes (step a) (parseKey k),
        tz env (timeZone a)
          (if \<not> isBefore (parseKey k) (start rng) then parseKey k
           else addMinutes (step a) (parseKey k)))"
  by (simp add: Let_def)

lemma adjustToExisting_ge_start:
  "valueOf (start rng) \<le> valueOf sT \<Longrightarrow>
   valueOf (start rng) \<le> valueOf (snd (adjustToExisting env a rng ks (sU, sT)))"
proof (induction ks arbitrary: sU sT)
  case Nil
  then show ?case by simp
next
  case (Cons k ks)
  show ?case
  proof (cases "isBefore (parseKey k) sT \<and> isAfter (addMinutes (step a) (parseKey k)) sT")
    case False
    show ?thesis
      unfolding adjustToExisting_miss [OF False] by (rule Cons.IH [OF Cons.prems])
  next
    case True
    let ?n = "if \<not> isBefore (parseKey k) (start rng) then parseKey k
              else addMinutes (step a) (parseKey k)"
    have "valueOf (start rng) \<le> valueOf ?n"
      using True Cons.prems by (auto simp add: isBefore_def isAfter_def)
    then have "valueOf (start rng) \<le> valueOf (tz env (timeZone a) ?n)"
      by (simp only: valueOf_tz)
    from Cons.IH [OF this] show ?thesis
      unfolding adjustToExisting_hit [OF conjunct1 [OF True] conjunct2 [OF True]] .
  qed
qed



lemma firstSlotUTC_ge_start:
  "0 < interval env a \<Longrightarrow> valueOf (start rng) \<le> valueOf (firstSlotUTC env a slots rng)"
  unfolding firstSlotUTC_def Let_def valueOf_utc
  by (rule adjustToExisting_ge_start) (simp add: valueOf_tz initialSlotStart_ge)


lemma firstSlotUTC_empty: "firstSlotUTC env a [] rng = initialSlotStart env a rng"
proof -
  have "utc (tz env (timeZone a) (initialSlotStart env a rng)) = initialSlotStart env a rng"
    using utcOffset_initialSlotStart [of env a rng] by (simp add: utc_def tz_def)
  then show ?thesis by (simp add: firstSlotUTC_def Let_def)
qed


lemma rangeSlots_nth:
  assumes "rangeSlots env a slots rng = Some xs" and "i < length xs"
  shows "fitsBeforeEnd a rng ((nextSlotUTC env a ^^ i) (firstSlotUTC env a slots rng))"
    and "xs ! i = slotDataFor a (formatYYYYMMDD (start rng))
                    (tz env (timeZone a) ((nextSlotUTC env a ^^ i) (firstSlotUTC env a slots rng)))"
  using emitSlots_nth [OF assms [unfolded rangeSlots_def]] by simp_all
























lemma scanIntervals_find:
  "scanIntervals f cs d = (case find (\<lambda>c. c dvd f) cs of Some c \<Rightarrow> c | None \<Rightarrow> d)"
  by (induction cs) (simp_all add: jsRem_eq_0_iff)


lemma sameEffect_step: "sameEffect a b \<Longrightarrow> step a = step b"
  by (simp add: sameEffect_def step_def)

lemma sameEffect_interval: "sameEffect a b \<Longrightarrow> interval env a = interval env b"
  by (simp add: sameEffect_def interval_def)

lemma sameEffect_shouldApply:
  "sameEffect a b \<Longrightarrow> shouldApplyHalfHourOffset env a = shouldApplyHalfHourOffset env b"
  by (simp add: shouldApplyHalfHourOffset_def sameEffect_interval isISTTimezone_def
      isHalfHourTimezone_def hasHalfHourStartTimes_def tzOffsetMinutes_def)
     (simp add: sameEffect_def)

lemma sameEffect_applyHalfHourOffset:
  "sameEffect a b \<Longrightarrow> applyHalfHourOffset env a d = applyHalfHourOffset env b d"
  by (simp add: applyHalfHourOffset_def sameEffect_shouldApply)

lemma sameEffect_initialSlotStart:
  assumes "sameEffect a b"
  shows "initialSlotStart env a rng = initialSlotStart env b rng"
proof -
  have "laterOfStartAndNotice env a rng = laterOfStartAndNotice env b rng"
    using assms by (simp add: laterOfStartAndNotice_def startTimeWithMinNotice_def sameEffect_def)
  moreover have "offsetStart1 a = offsetStart1 b" using assms by (simp add: sameEffect_def)
  ultimately show ?thesis
    by (simp add: initialSlotStart_def sameEffect_interval [OF assms]
        sameEffect_applyHalfHourOffset [OF assms])
qed

lemma sameEffect_adjustToExisting:
  assumes "sameEffect a b"
  shows "adjustToExisting env a rng ks st = adjustToExisting env b rng ks st"
proof (induction ks arbitrary: st)
  case Nil
  then show ?case by simp
next
  case (Cons k ks)
  have "timeZone a = timeZone b" using assms by (simp add: sameEffect_def)
  then show ?case
    by (cases st) (simp add: Cons sameEffect_step [OF assms] Let_def)
qed

lemma sameEffect_firstSlotUTC:
  assumes "sameEffect a b"
  shows "firstSlotUTC env a slots rng = firstSlotUTC env b slots rng"
proof -
  have "timeZone a = timeZone b" using assms by (simp add: sameEffect_def)
  then show ?thesis
    by (simp add: firstSlotUTC_def sameEffect_initialSlotStart [OF assms]
        sameEffect_adjustToExisting [OF assms])
qed

lemma sameEffect_nextSlotUTC:
  "sameEffect a b \<Longrightarrow> nextSlotUTC env a c = nextSlotUTC env b c"
  by (simp add: nextSlotUTC_def sameEffect_step sameEffect_applyHalfHourOffset)

lemma sameEffect_fitsBeforeEnd:
  "sameEffect a b \<Longrightarrow> fitsBeforeEnd a rng c = fitsBeforeEnd b rng c"
  by (simp add: fitsBeforeEnd_def sameEffect_def)

lemma sameEffect_slotDataFor:
  "sameEffect a b \<Longrightarrow> slotDataFor a date t = slotDataFor b date t"
  by (simp add: slotDataFor_def sameEffect_def)

lemma sameEffect_sym: "sameEffect a b \<Longrightarrow> sameEffect b a"
  by (simp add: sameEffect_def)

lemma sameEffect_emitSlots_Some:
  assumes "sameEffect a b" and "emitSlots env a rng date c = Some xs"
  shows "emitSlots env b rng date c = Some xs"
  using assms(2)
proof (induction xs arbitrary: c)
  case Nil
  then have "\<not> fitsBeforeEnd b rng c"
    by (simp add: emitSlots_Nil_iff sameEffect_fitsBeforeEnd [OF assms(1)])
  then show ?case by (rule emitSlots_done)
next
  case (Cons x rest)
  from emitSlots_Cons [OF Cons.prems]
  have f: "fitsBeforeEnd a rng c"
    and x: "x = slotDataFor a date (tz env (timeZone a) c)"
    and r: "emitSlots env a rng date (nextSlotUTC env a c) = Some rest"
    by simp_all
  have tzs: "timeZone a = timeZone b" using assms(1) by (simp add: sameEffect_def)
  have f': "fitsBeforeEnd b rng c"
    using f by (simp add: sameEffect_fitsBeforeEnd [OF assms(1)])
  have "emitSlots env b rng date (nextSlotUTC env b c) = Some rest"
    using Cons.IH [OF r] by (simp add: sameEffect_nextSlotUTC [OF assms(1)])
  then show ?case
    by (simp add: emitSlots_more [OF f'] x tzs sameEffect_slotDataFor [OF assms(1)])
qed

lemma sameEffect_emitSlots:
  assumes "sameEffect a b"
  shows "emitSlots env a rng date c = emitSlots env b rng date c"
proof (cases "emitSlots env a rng date c")
  case (Some xs)
  with sameEffect_emitSlots_Some [OF assms Some] show ?thesis by simp
next
  case None
  show ?thesis
  proof (cases "emitSlots env b rng date c")
    case None
    with \<open>emitSlots env a rng date c = None\<close> show ?thesis by simp
  next
    case (Some ys)
    from sameEffect_emitSlots_Some [OF sameEffect_sym [OF assms] Some] None
    show ?thesis by simp
  qed
qed

lemma sameEffect_processRange:
  assumes "sameEffect a b"
  shows "processRange env a slots rng = processRange env b slots rng"
  by (simp add: processRange_rangeSlots rangeSlots_def sameEffect_firstSlotUTC [OF assms]
      sameEffect_emitSlots [OF assms])

lemma sameEffect_forEachRange:
  assumes "sameEffect a b"
  shows "forEachRange env a rs slots = forEachRange env b rs slots"
  by (induction rs arbitrary: slots)
     (simp_all add: sameEffect_processRange [OF assms] cong: Option.bind_cong)

lemma sameEffect_buildSlots:
  assumes "sameEffect a b"
  shows "buildSlotsWithDateRanges env a = buildSlotsWithDateRanges env b"
proof -
  have "dateRanges a = dateRanges b" and "datesOutOfOffice a = datesOutOfOffice b"
    using assms by (simp_all add: sameEffect_def)
  then show ?thesis
    by (simp add: buildSlotsWithDateRanges_def orderedDateRanges_def
        sameEffect_forEachRange [OF assms])
qed

lemma minimumOfOne_idem: "minimumOfOne (minimumOfOne v) = minimumOfOne v"
  by (simp add: minimumOfOne_def)

lemma sameEffect_clamped:
  "sameEffect (a\<lparr>frequency := frequency1 a, eventLength := eventLength1 a,
                  offsetStart := Some (offsetStart1 a)\<rparr>) a"
  by (simp add: sameEffect_def frequency1_def eventLength1_def offsetStart1_def
      minimumOfOne_def split: option.split)


lemma forEachRange_terminates:
  assumes "\<not> shouldApplyHalfHourOffset env a \<or> 30 \<le> step a"
  shows "\<exists>slots'. forEachRange env a rs slots = Some slots'"
proof (induction rs arbitrary: slots)
  case Nil
  then show ?case by simp
next
  case (Cons rng rs)
  from emitSlots_terminates [OF assms] obtain xs where "rangeSlots env a slots rng = Some xs"
    unfolding rangeSlots_def by blast
  then have "processRange env a slots rng = Some (foldl slotsSet slots xs)"
    by (simp add: processRange_rangeSlots)
  with Cons [of "foldl slotsSet slots xs"] show ?case by simp
qed

lemma rangeSlots_malformed:
  assumes "0 < interval env a" and "malformed rng"
  shows "rangeSlots env a slots rng = Some []"
proof -
  have "valueOf (end' rng) < valueOf (firstSlotUTC env a slots rng)"
    using assms(2) firstSlotUTC_ge_start [OF assms(1), of rng slots] by (simp add: malformed_def)
  then have "\<not> fitsBeforeEnd a rng (firstSlotUTC env a slots rng)"
    using eventLength1_ge1 [of a] by (simp add: fitsBeforeEnd_iff)
  then show ?thesis unfolding rangeSlots_def by (rule emitSlots_done)
qed

lemma processRange_malformed:
  "0 < interval env a \<Longrightarrow> malformed rng \<Longrightarrow> processRange env a slots rng = Some slots"
  by (simp add: processRange_rangeSlots rangeSlots_malformed)

lemma forEachRange_diverges:
  assumes "shouldApplyHalfHourOffset env a" and "step a < 30"
    and "fitsBeforeEnd a rng (initialSlotStart env a rng)"
  shows "forEachRange env a (rng # rs) [] = None"
proof -
  have "minute (initialSlotStart env a rng) = 30"
    using assms(1) by (rule minute_initialSlotStart)
  with assms(1,2) have "nextSlotUTC env a (initialSlotStart env a rng) = initialSlotStart env a rng"
    by (rule nextSlotUTC_stuck)
  with assms(3) have "rangeSlots env a [] rng = None"
    unfolding rangeSlots_def firstSlotUTC_empty by (rule emitSlots_diverges)
  then show ?thesis by (simp add: processRange_rangeSlots)
qed


text \<open>The scenarios, evaluated.\<close>

lemma kolkata_returned:
  "map_option returned (buildSlotsWithDateRanges exampleEnv kolkataArgs) =
     Some [plainSlot (junThird 4 30) 330, plainSlot (junThird 5 30) 330,
           plainSlot (junThird 6 30) 330]"
  by code_simp



lemma kolkata_ordered: "orderedDateRanges kolkataArgs = [] @ kolkataMorning # []"
  by code_simp



lemma overnight_rangeSlots:
  "rangeSlots exampleEnv overnightArgs [] overnight =
     Some [awaySlot (junThird 23 0), awaySlot (junThird 24 0)]"
  by code_simp

lemma overnight_returned:
  "map_option returned (buildSlotsWithDateRanges exampleEnv overnightArgs) =
     Some [awaySlot (junThird 23 0), awaySlot (junThird 24 0)]"
  by code_simp

lemma unsorted_after:
  "map_option dateRangesAfter (buildSlotsWithDateRanges exampleEnv unsortedArgs)
     = Some [utcMorning, utcAfternoon]"
  by code_simp

lemma unsorted_returned:
  "map_option returned (buildSlotsWithDateRanges exampleEnv unsortedArgs)
     = Some [plainSlot (junThird 9 0) 0, plainSlot (junThird 10 0) 0, plainSlot (junThird 11 0) 0,
             plainSlot (junThird 13 0) 0, plainSlot (junThird 14 0) 0]"
  by code_simp


lemma utc_returned:
  "map_option returned (buildSlotsWithDateRanges exampleEnv utcArgs) =
     Some [plainSlot (junThird 9 0) 0, plainSlot (junThird 10 0) 0, plainSlot (junThird 11 0) 0]"
  by code_simp


lemma broken_malformed: "valueOf (end' brokenRange) < valueOf (start brokenRange)"
  by code_simp

lemma kolkata_interval: "interval exampleEnv kolkataArgs = 60"
  by code_simp










lemma twelve_ordered: "orderedDateRanges twelveArgs = [kolkataMorning]"
  by code_simp

lemma twelve_flag: "shouldApplyHalfHourOffset hourlyEnv twelveArgs"
  by code_simp

lemma twelve_fits:
  "fitsBeforeEnd twelveArgs kolkataMorning (initialSlotStart hourlyEnv twelveArgs kolkataMorning)"
  by code_simp

lemma seven_ordered: "orderedDateRanges sevenArgs = [brokenRange, kolkataMorning]"
  by code_simp

lemma seven_interval: "interval hourlyEnv sevenArgs = 60"
  by code_simp

lemma seven_flag: "shouldApplyHalfHourOffset hourlyEnv sevenArgs"
  by code_simp

lemma seven_fits:
  "fitsBeforeEnd sevenArgs kolkataMorning (initialSlotStart hourlyEnv sevenArgs kolkataMorning)"
  by code_simp


section \<open>Claims\<close>










text \<open>
  C4. The interval is the first of 60, 30, 20, 15, 10, 5, in this order, that divides the
  frequency (clamped to at least 1) evenly, and the configured fallback when none does:
  the configured schedule interval, and 1 when nothing (or 0) is configured. Frequency 45
  selects 15, and frequency 37 selects the fallback, which is 1 when nothing is
  configured and 15 when 15 is.
\<close>

theorem interval_selection:
  "interval env a
     = firstEvenDivisor (if scheduleInterval env = 0 then 1 else scheduleInterval env)
         (max (frequency a) 1)
   \<and> interval env (a\<lparr>frequency := 45\<rparr>) = 15
   \<and> interval env (a\<lparr>frequency := 37\<rparr>)
       = (if scheduleInterval env = 0 then 1 else scheduleInterval env)
   \<and> interval (env\<lparr>scheduleInterval := 0\<rparr>) (a\<lparr>frequency := 37\<rparr>) = 1
   \<and> interval (env\<lparr>scheduleInterval := 15\<rparr>) (a\<lparr>frequency := 37\<rparr>) = 15"
proof -
  have sel: "interval env a
     = firstEvenDivisor (if scheduleInterval env = 0 then 1 else scheduleInterval env)
         (max (frequency a) 1)" for env :: environment and a :: "'a args"
    by (simp add: interval_def firstEvenDivisor_def scanIntervals_find defaultInterval_def
        intervalsWithDefinedStartTimes_def frequency1_def minimumOfOne_max)
  have "interval env (a\<lparr>frequency := 45\<rparr>) = 15"
    by (simp add: sel firstEvenDivisor_def)
  moreover have f37: "interval env (a\<lparr>frequency := 37\<rparr>)
       = (if scheduleInterval env = 0 then 1 else scheduleInterval env)" for env :: environment
    by (simp add: sel firstEvenDivisor_def)
  moreover have "interval (env\<lparr>scheduleInterval := 0\<rparr>) (a\<lparr>frequency := 37\<rparr>) = 1"
    by (simp add: f37)
  moreover have "interval (env\<lparr>scheduleInterval := 15\<rparr>) (a\<lparr>frequency := 37\<rparr>) = 15"
    by (simp add: f37)
  ultimately show ?thesis using sel [of env a] by simp
qed




text \<open>
  C6 as stated fails: the table is consulted under the date of the start of the range,
  so a slot after midnight carries the annotation of the day before although its own
  date has no entry.
\<close>

theorem out_of_office_counterexample:
  "datesOutOfOffice overnightArgs = Some overnightTable
   \<and> rangeSlots exampleEnv overnightArgs [] overnight =
       Some [awaySlot (junThird 23 0), awaySlot (junThird 24 0)]
   \<and> map_option returned (buildSlotsWithDateRanges exampleEnv overnightArgs) =
       Some [awaySlot (junThird 23 0), awaySlot (junThird 24 0)]
   \<and> formatYYYYMMDD (time (awaySlot (junThird 24 0))) = 19878
   \<and> overnightTable 19878 = None
   \<and> away (awaySlot (junThird 24 0)) = Some True
   \<and> reason (awaySlot (junThird 24 0)) = Some ''PTO''"
proof -
  have "datesOutOfOffice overnightArgs = Some overnightTable" by (simp add: overnightArgs_def)
  moreover have "formatYYYYMMDD (time (awaySlot (junThird 24 0))) = 19878" by code_simp
  moreover have "overnightTable 19878 = None" by (simp add: overnightTable_def)
  moreover have "away (awaySlot (junThird 24 0)) = Some True
     \<and> reason (awaySlot (junThird 24 0)) = Some ''PTO''" by (simp add: awaySlot_def)
  ultimately show ?thesis using overnight_rangeSlots overnight_returned by simp
qed

text \<open>
  C6, amended. For every slot of a range the out-of-office table is consulted under the
  local calendar date of the start of the range. When an entry exists the slot has
  \<open>away: true\<close>, the \<open>fromUser\<close> and \<open>toUser\<close> of the entry when present, and its \<open>reason\<close>
  and \<open>emoji\<close> when present and not empty, the other fields being omitted; when no entry
  exists, or no table is passed, the slot has none of these fields.
\<close>

theorem out_of_office_fields:
  assumes "rangeSlots env a slots rng = Some xs" and "s \<in> set xs"
  shows "(case (case datesOutOfOffice a of None \<Rightarrow> None
                | Some table \<Rightarrow> table (formatYYYYMMDD (start rng))) of
            None \<Rightarrow> away s = None \<and> fromUser s = None \<and> toUser s = None
                     \<and> reason s = None \<and> emoji s = None
          | Some entry \<Rightarrow> away s = Some True
                     \<and> fromUser s = oooFromUser entry \<and> toUser s = oooToUser entry
                     \<and> reason s = (if oooReason entry = Some [] then None else oooReason entry)
                     \<and> emoji s = (if oooEmoji entry = Some [] then None else oooEmoji entry))"
proof -
  from assms(2) obtain i where i: "i < length xs" and s: "s = xs ! i"
    by (auto simp add: in_set_conv_nth)
  have t: "truthyString v = (if v = Some [] then None else v)" for v
    by (simp add: truthyString_def split: option.split list.split)
  show ?thesis
    unfolding s rangeSlots_nth(2) [OF assms(1) i]
    by (simp add: slotDataFor_def t split: option.split)
qed

theorem out_of_office_fields_witness:
  "rangeSlots exampleEnv overnightArgs [] overnight =
       Some [awaySlot (junThird 23 0), awaySlot (junThird 24 0)]
   \<and> datesOutOfOffice overnightArgs = Some overnightTable
   \<and> overnightTable (formatYYYYMMDD (start overnight)) = Some ptoEntry
   \<and> away (awaySlot (junThird 24 0)) = Some True
   \<and> fromUser (awaySlot (junThird 24 0)) = oooFromUser ptoEntry
   \<and> toUser (awaySlot (junThird 24 0)) = oooToUser ptoEntry
   \<and> reason (awaySlot (junThird 24 0)) = oooReason ptoEntry
   \<and> emoji (awaySlot (junThird 24 0)) = oooEmoji ptoEntry"
proof -
  have d: "datesOutOfOffice overnightArgs = Some overnightTable" by (simp add: overnightArgs_def)
  have f: "formatYYYYMMDD (start overnight) = 19877" by code_simp
  have t: "overnightTable 19877 = Some ptoEntry" by (simp add: overnightTable_def)
  have "awaySlot (junThird 24 0) \<in> set [awaySlot (junThird 23 0), awaySlot (junThird 24 0)]"
    by simp
  from out_of_office_fields [OF overnight_rangeSlots this] d f t overnight_rangeSlots
  show ?thesis by (simp add: ptoEntry_def)
qed

text \<open>
  C7 as stated fails for \<open>offsetStart\<close>: a value of 0 is present and is used as 0, not as
  \<open>max(0, 1)\<close>; the first slot is at the start of the range and the step is the frequency.
\<close>

theorem clamping_counterexample:
  "offsetStart utcArgs = Some 0
   \<and> offsetStart1 utcArgs = 0
   \<and> offsetStart1 utcArgs \<noteq> max 0 1
   \<and> step utcArgs = 60
   \<and> map_option returned (buildSlotsWithDateRanges exampleEnv utcArgs) =
       Some [plainSlot (junThird 9 0) 0, plainSlot (junThird 10 0) 0,
             plainSlot (junThird 11 0) 0]"
proof -
  have "offsetStart utcArgs = Some 0" by (simp add: utcArgs_def)
  moreover have "offsetStart1 utcArgs = 0" by code_simp
  moreover have "step utcArgs = 60" by code_simp
  ultimately show ?thesis using utc_returned by simp
qed

text \<open>
  C7, amended. \<open>frequency\<close> and \<open>eventLength\<close> are replaced by the larger of their value
  and 1; \<open>offsetStart\<close> is replaced by the larger of its value and 1 when it is present
  and not 0, and by 0 when it is absent or 0. The step \<open>frequency + offsetStart\<close> is at
  least one minute, the interval that divides is not zero, and the result of the call
  depends on the three parameters through the replaced values only.
\<close>

theorem clamping:
  "frequency1 a = max (frequency a) 1
   \<and> eventLength1 a = max (eventLength a) 1
   \<and> offsetStart1 a = (case offsetStart a of None \<Rightarrow> 0
                        | Some v \<Rightarrow> if v = 0 then 0 else max v 1)
   \<and> step a = frequency1 a + offsetStart1 a
   \<and> 1 \<le> step a
   \<and> interval env a \<noteq> 0
   \<and> buildSlotsWithDateRanges env
        (a\<lparr>frequency := frequency1 a, eventLength := eventLength1 a,
           offsetStart := Some (offsetStart1 a)\<rparr>)
       = buildSlotsWithDateRanges env a"
proof -
  have "offsetStart1 a = (case offsetStart a of None \<Rightarrow> 0
                        | Some v \<Rightarrow> if v = 0 then 0 else max v 1)"
    by (simp add: offsetStart1_def minimumOfOne_max split: option.split)
  moreover have "interval env a \<noteq> 0" by (rule interval_nonzero)
  ultimately show ?thesis
    using sameEffect_buildSlots [OF sameEffect_clamped, of env a] step_ge1 [of a]
    by (simp add: frequency1_def eventLength1_def minimumOfOne_max step_def)
qed

text \<open>
  C8 fails on the code where it says that a list is returned for every input: with the
  schedule interval configured as 60, frequency 7 and a Kolkata invitee, the call does
  not return, a malformed range among the inputs notwithstanding. The defect is that of
  C9.
\<close>

theorem malformed_call_does_not_return:
  "dateRanges sevenArgs = [kolkataMorning, brokenRange]
   \<and> buildSlotsWithDateRanges hourlyEnv sevenArgs = None"
proof -
  have "step sevenArgs < 30" by code_simp
  from forEachRange_diverges [OF seven_flag this seven_fits]
  have "forEachRange hourlyEnv sevenArgs [kolkataMorning] [] = None" .
  moreover have "processRange hourlyEnv sevenArgs [] brokenRange = Some []"
    by (rule processRange_malformed) (simp_all add: seven_interval malformed_def broken_malformed)
  ultimately have "buildSlotsWithDateRanges hourlyEnv sevenArgs = None"
    by (simp add: buildSlotsWithDateRanges_def seven_ordered)
  then show ?thesis by (simp add: sevenArgs_def)
qed

text \<open>
  C9 fails on the code. With \<open>NEXT_PUBLIC_AVAILABILITY_SCHEDULE_INTERVAL\<close> set to 60 and
  a frequency of 12, which none of the candidates divides, the interval is the fallback
  60, so the half-hour correction is in force for a Kolkata invitee although the step is
  12 minutes: from 04:30 UTC the next candidate is 04:42, which the correction sets back
  to 04:30, and the emission loop does not end.
\<close>

theorem emission_loop_diverges:
  "scheduleInterval hourlyEnv = 60
   \<and> frequency1 twelveArgs = 12
   \<and> interval hourlyEnv twelveArgs = 60
   \<and> shouldApplyHalfHourOffset hourlyEnv twelveArgs
   \<and> initialSlotStart hourlyEnv twelveArgs kolkataMorning
       = \<lparr>valueOf = junThird 4 30, utcOffset = 0\<rparr>
   \<and> nextSlotUTC hourlyEnv twelveArgs \<lparr>valueOf = junThird 4 30, utcOffset = 0\<rparr>
       = \<lparr>valueOf = junThird 4 30, utcOffset = 0\<rparr>
   \<and> buildSlotsWithDateRanges hourlyEnv twelveArgs = None"
proof -
  have 1: "scheduleInterval hourlyEnv = 60" by code_simp
  have 2: "frequency1 twelveArgs = 12" by code_simp
  have 3: "interval hourlyEnv twelveArgs = 60" by code_simp
  have 4: "initialSlotStart hourlyEnv twelveArgs kolkataMorning
       = \<lparr>valueOf = junThird 4 30, utcOffset = 0\<rparr>" by code_simp
  have 5: "nextSlotUTC hourlyEnv twelveArgs \<lparr>valueOf = junThird 4 30, utcOffset = 0\<rparr>
       = \<lparr>valueOf = junThird 4 30, utcOffset = 0\<rparr>" by code_simp
  have "step twelveArgs < 30" by code_simp
  from forEachRange_diverges [OF twelve_flag this twelve_fits]
  have "buildSlotsWithDateRanges hourlyEnv twelveArgs = None"
    by (simp add: buildSlotsWithDateRanges_def twelve_ordered)
  with 1 2 3 twelve_flag 4 5 show ?thesis by blast
qed

text \<open>
  C10 as stated fails: \<open>sort\<close> orders the caller's array in place, so an array passed
  with the later range first is found in the other order after the call.
\<close>

theorem inputs_after_call_counterexample:
  "dateRanges unsortedArgs = [utcAfternoon, utcMorning]
   \<and> map_option dateRangesAfter (buildSlotsWithDateRanges exampleEnv unsortedArgs)
       = Some [utcMorning, utcAfternoon]
   \<and> [utcMorning, utcAfternoon] \<noteq> [utcAfternoon, utcMorning]"
proof -
  have "dateRanges unsortedArgs = [utcAfternoon, utcMorning]"
    by (simp add: unsortedArgs_def)
  moreover have "[utcMorning, utcAfternoon] \<noteq> [utcAfternoon, utcMorning]"
    by code_simp
  ultimately show ?thesis using unsorted_after by simp
qed

text \<open>
  C10, amended. After \<open>buildSlotsWithDateRanges\<close> or \<open>getSlots\<close> has returned, the
  caller's \<open>dateRanges\<close> array holds the same elements, sorted ascending by the instant
  of \<open>start\<close>, ranges of equal start in their former order; it is as it was when it was
  sorted already. The \<open>datesOutOfOffice\<close> map is unchanged.
\<close>

theorem inputs_after_call:
  assumes "buildSlotsWithDateRanges env a = Some out \<or> getSlots env inviteeDate a = Some out"
  shows "dateRangesAfter out = sort_key (\<lambda>r. valueOf (start r)) (dateRanges a)
       \<and> mset (dateRangesAfter out) = mset (dateRanges a)
       \<and> sorted (map (\<lambda>r. valueOf (start r)) (dateRangesAfter out))
       \<and> filter (\<lambda>r. valueOf (start r) = k) (dateRangesAfter out)
           = filter (\<lambda>r. valueOf (start r) = k) (dateRanges a)
       \<and> (sorted (map (\<lambda>r. valueOf (start r)) (dateRanges a))
            \<longrightarrow> dateRangesAfter out = dateRanges a)
       \<and> datesOutOfOfficeAfter out = datesOutOfOffice a"
proof -
  from assms have d: "dateRangesAfter out = sort_key (\<lambda>r. valueOf (start r)) (dateRanges a)"
    and o: "datesOutOfOfficeAfter out = datesOutOfOffice a"
    by (auto simp add: getSlots_def buildSlotsWithDateRanges_def orderedDateRanges_def)
  show ?thesis
    unfolding d o
    by (simp add: sort_key_stable sort_key_id_if_sorted)
qed

theorem inputs_after_call_witness:
  "map_option dateRangesAfter (buildSlotsWithDateRanges exampleEnv unsortedArgs)
       = Some [utcMorning, utcAfternoon]
   \<and> mset [utcMorning, utcAfternoon] = mset (dateRanges unsortedArgs)
   \<and> sorted (map (\<lambda>r. valueOf (start r)) [utcMorning, utcAfternoon])
   \<and> sorted (map (\<lambda>r. valueOf (start r)) (dateRanges kolkataArgs))
   \<and> map_option dateRangesAfter (buildSlotsWithDateRanges exampleEnv kolkataArgs)
       = Some (dateRanges kolkataArgs)"
proof -
  from unsorted_after obtain out
    where out: "buildSlotsWithDateRanges exampleEnv unsortedArgs = Some out"
      and d: "dateRangesAfter out = [utcMorning, utcAfternoon]" by auto
  from kolkata_returned obtain out'
    where out': "buildSlotsWithDateRanges exampleEnv kolkataArgs = Some out'" by auto
  have s: "sorted (map (\<lambda>r. valueOf (start r)) (dateRanges kolkataArgs))"
    by (simp add: kolkataArgs_def)
  note A = inputs_after_call [OF disjI1 [OF out], of 0]
  note B = inputs_after_call [OF disjI1 [OF out'], of 0]
  from A have "mset (dateRangesAfter out) = mset (dateRanges unsortedArgs)" by blast
  then have 1: "mset [utcMorning, utcAfternoon] = mset (dateRanges unsortedArgs)"
    unfolding d .
  from A have "sorted (map (\<lambda>r. valueOf (start r)) (dateRangesAfter out))" by blast
  then have 2: "sorted (map (\<lambda>r. valueOf (start r)) [utcMorning, utcAfternoon])"
    unfolding d .
  from B s have "dateRangesAfter out' = dateRanges kolkataArgs" by blast
  with out' have 3: "map_option dateRangesAfter (buildSlotsWithDateRanges exampleEnv kolkataArgs)
       = Some (dateRanges kolkataArgs)" by simp
  from unsorted_after 1 2 s 3 show ?thesis by blast
qed

end
